theory Spec2Isabelle
  imports Complex_Main "HOL-Library.Sublist" "HOL-Library.Word"
begin

section \<open>SmartPark: data model\<close>

text \<open>
  The application is written in TypeScript. A string is modelled as a \<open>string\<close>
  (a list of bytes): the plate pipeline keeps ASCII letters and digits only and every
  code unit outside ASCII is represented by bytes above 127, which the pipeline removes
  exactly as the source removes the code unit.

  A \<open>Date\<close> is modelled by its time value, the number of milliseconds since
  1970-01-01T00:00:00Z, or by \<open>InvalidDate\<close> when the time value is NaN.
\<close>

datatype EntryType = Entry | Exit

datatype Date = InvalidDate | Time int

record ParkingEntry =
  id :: string
  plate_number :: string
  timestamp :: Date
  entry_type :: EntryType

section \<open>Plate Normalizer (CameraScanner.tsx)\<close>

text \<open>The character classes of the regular expressions \<open>[A-Z]\<close>, \<open>[a-z]\<close>, \<open>[0-9]\<close>.\<close>

definition isUpperAZ :: "char \<Rightarrow> bool" where
  "isUpperAZ c = (65 \<le> (of_char c :: nat) \<and> (of_char c :: nat) \<le> 90)"

definition isLowerAZ :: "char \<Rightarrow> bool" where
  "isLowerAZ c = (97 \<le> (of_char c :: nat) \<and> (of_char c :: nat) \<le> 122)"

definition isDigit09 :: "char \<Rightarrow> bool" where
  "isDigit09 c = (48 \<le> (of_char c :: nat) \<and> (of_char c :: nat) \<le> 57)"

text \<open>
  \<open>/[^A-Z0-9]/gi\<close>: with the flag \<open>i\<close> (and without \<open>u\<close>) a character is in
  the class \<open>[A-Z0-9]\<close> when it is an ASCII letter of either case or a digit; the
  negated class matches every other character.
\<close>

definition isAlnumI :: "char \<Rightarrow> bool" where
  "isAlnumI c = (isUpperAZ c \<or> isLowerAZ c \<or> isDigit09 c)"

text \<open>
  \<open>String.prototype.toUpperCase\<close> and \<open>toLowerCase\<close>: the ASCII letters change
  case and every other byte is left as it is. The normalizer upper-cases a string of
  ASCII letters and digits only, and the plates that the dashboard lower-cases are
  such strings as well.
\<close>

definition upperChar :: "char \<Rightarrow> char" where
  "upperChar c = (if isLowerAZ c then char_of ((of_char c :: nat) - 32) else c)"


definition toUpperCase :: "string \<Rightarrow> string" where
  "toUpperCase s = map upperChar s"


text \<open>\<open>s.replace(/c/g, d)\<close> for a single character \<open>c\<close> and a replacement \<open>d\<close>.\<close>

definition replaceChar :: "char \<Rightarrow> char \<Rightarrow> char \<Rightarrow> char" where
  "replaceChar c d x = (if x = c then d else x)"

definition replaceAll :: "char \<Rightarrow> char \<Rightarrow> string \<Rightarrow> string" where
  "replaceAll c d s = map (replaceChar c d) s"

definition cleanPlateNumber :: "string \<Rightarrow> string" where
  "cleanPlateNumber text =
     (let cleaned = toUpperCase (filter isAlnumI text)
      in replaceAll (CHR ''U'') (CHR ''0'')
        (replaceAll (CHR ''D'') (CHR ''0'')
        (replaceAll (CHR ''B'') (CHR ''8'')
        (replaceAll (CHR ''G'') (CHR ''6'')
        (replaceAll (CHR ''Z'') (CHR ''2'')
        (replaceAll (CHR ''S'') (CHR ''5'')
        (replaceAll (CHR ''L'') (CHR ''1'')
        (replaceAll (CHR ''I'') (CHR ''1'')
        (replaceAll (CHR ''Q'') (CHR ''0'')
        (replaceAll (CHR ''O'') (CHR ''0'') cleaned))))))))))"

definition isValidPlateNumber :: "string \<Rightarrow> bool" where
  "isValidPlateNumber plateNumber =
     (if length plateNumber < 4 \<or> length plateNumber > 8 then False
      else (let hasLetters = (\<exists>c \<in> set plateNumber. isUpperAZ c);
                hasNumbers = (\<exists>c \<in> set plateNumber. isDigit09 c)
            in hasLetters \<or> hasNumbers))"

text \<open>
  The state of the scanner component that the claims are about: the extracted plate,
  the selected direction and the notices (toast titles) shown so far, newest last.
\<close>

record Scanner =
  extractedText :: string
  selectedEntryType :: EntryType
  notices :: "string list"

text \<open>
  \<open>capture\<close>, from the point where the OCR engine has returned \<open>text\<close> and
  \<open>confidence\<close>.
\<close>

definition capture :: "string \<Rightarrow> real \<Rightarrow> Scanner \<Rightarrow> Scanner" where
  "capture text confidence st =
     (let cleanedText = cleanPlateNumber text
      in if isValidPlateNumber cleanedText \<and> confidence > 30
         then st\<lparr>extractedText := cleanedText,
                 notices := notices st @ [''License Plate Detected'']\<rparr>
         else st\<lparr>extractedText := [],
                 notices := notices st @ [''Plate Detection Failed'']\<rparr>)"

text \<open>
  \<open>confirmPlate\<close>: the plate handed to \<open>onPlateScanned\<close>, if any, and the state
  after \<open>resetCapture\<close>.
\<close>

definition confirmPlate :: "Scanner \<Rightarrow> (string \<times> EntryType) option \<times> Scanner" where
  "confirmPlate st =
     (if extractedText st \<noteq> []
      then (Some (extractedText st, selectedEntryType st), st\<lparr>extractedText := []\<rparr>)
      else (None, st))"

text \<open>The substitution table of the specification, in its order.\<close>

definition substitutionTable :: "(char \<times> char) list" where
  "substitutionTable =
     [(CHR ''O'', CHR ''0''), (CHR ''Q'', CHR ''0''), (CHR ''I'', CHR ''1''),
      (CHR ''L'', CHR ''1''), (CHR ''S'', CHR ''5''), (CHR ''Z'', CHR ''2''),
      (CHR ''G'', CHR ''6''), (CHR ''B'', CHR ''8''), (CHR ''D'', CHR ''0''),
      (CHR ''U'', CHR ''0'')]"

definition substitute :: "char \<Rightarrow> char" where
  "substitute c = (case map_of substitutionTable c of Some d \<Rightarrow> d | None \<Rightarrow> c)"

text \<open>A letter in the sense of the specification: an ASCII letter of either case.\<close>

definition isLetter :: "char \<Rightarrow> bool" where
  "isLetter c = (isUpperAZ c \<or> isLowerAZ c)"

section \<open>Dates\<close>

text \<open>
  The relational operators on two Dates compare the time values; a comparison with an
  invalid Date (NaN) is false.
\<close>

fun dateGt :: "Date \<Rightarrow> Date \<Rightarrow> bool" where
  "dateGt (Time a) (Time b) = (a > b)"
| "dateGt _ _ = False"


section \<open>Log Store and Duplicate Guard, local-storage variant (pages/Index.tsx, earlier revision)\<close>

text \<open>
  The state of the page: the entry list, newest first, and the titles of the notices
  (toasts) shown so far, newest last.
\<close>

record Page =
  parkingEntries :: "ParkingEntry list"
  toasts :: "string list"

text \<open>
  \<open>addParkingEntry\<close>. The reads of the environment are parameters: \<open>now\<close> is
  \<open>Date.now()\<close>, \<open>stamp\<close> is the time value of the later \<open>new Date()\<close> and
  \<open>newId\<close> is the string made from \<open>Math.random()\<close>.
\<close>

definition addParkingEntry_local ::
  "int \<Rightarrow> int \<Rightarrow> string \<Rightarrow> string \<Rightarrow> EntryType \<Rightarrow> Page \<Rightarrow> Page" where
  "addParkingEntry_local now stamp newId plateNumber entryType st =
     (let fiveMinutesAgo = Time (now - 5 * 60 * 1000);
          recentDuplicate = find
            (\<lambda>entry. plate_number entry = plateNumber \<and>
                     entry_type entry = entryType \<and>
                     dateGt (timestamp entry) fiveMinutesAgo)
            (parkingEntries st)
      in case recentDuplicate of
           Some _ \<Rightarrow> st\<lparr>toasts := toasts st @ [''Duplicate Entry Detected'']\<rparr>
         | None \<Rightarrow>
             (let newEntry = \<lparr>id = newId, plate_number = plateNumber,
                              timestamp = Time stamp, entry_type = entryType\<rparr>
              in st\<lparr>parkingEntries := newEntry # parkingEntries st,
                     toasts := toasts st @ [''License Plate Scanned'']\<rparr>))"

section \<open>Log Store and Duplicate Guard, remote-backed variant (services/parkingService.ts, pages/Index.tsx)\<close>

text \<open>
  What awaiting a query of the external store gives: the call throws, or it resolves to
  an object with the fields \<open>data\<close> and \<open>error\<close>, each of which may be null.
\<close>

datatype ('a, 'e) Response = Threw | Resolved "'a option" "'e option"

text \<open>
  A row of the table \<open>parking_entries\<close> as the client receives it. The column
  \<open>timestamp\<close> is kept as the Date that \<open>new Date(data.timestamp)\<close> makes of it.
\<close>

record Row =
  row_id :: string
  row_plate_number :: string
  row_timestamp :: Date
  row_entry_type :: EntryType

text \<open>
  The external store, as far as the service uses it: the answer to the existence query
  \<open>select('id').eq('plate_number', p).eq('entry_type', t).gte('timestamp', since).limit(1)\<close>
  and the answer to \<open>insert([{plate_number, entry_type, timestamp}]).select().single()\<close>.
\<close>

record 'e Supabase =
  selectRecent :: "string \<Rightarrow> EntryType \<Rightarrow> Date \<Rightarrow> (string list, 'e) Response"
  insertRow :: "string \<Rightarrow> EntryType \<Rightarrow> Date \<Rightarrow> (Row, 'e) Response"

text \<open>What awaiting a call of the service gives: a value, or an exception.\<close>

datatype 'a Outcome = Returned 'a | Thrown

definition checkDuplicateEntry :: "'e Supabase \<Rightarrow> int \<Rightarrow> string \<Rightarrow> EntryType \<Rightarrow> bool" where
  "checkDuplicateEntry sb now plateNumber entryType =
     (let fiveMinutesAgo = Time (now - 5 * 60 * 1000)
      in case selectRecent sb plateNumber entryType fiveMinutesAgo of
           Threw \<Rightarrow> False
         | Resolved data error \<Rightarrow>
             (if error \<noteq> None then False
              else (case data of None \<Rightarrow> 0 | Some rows \<Rightarrow> length rows) > 0))"

definition insertEntry :: "'e Supabase \<Rightarrow> int \<Rightarrow> string \<Rightarrow> EntryType \<Rightarrow> ParkingEntry option" where
  "insertEntry sb now plateNumber entryType =
     (case insertRow sb plateNumber entryType (Time now) of
        Threw \<Rightarrow> None
      | Resolved data error \<Rightarrow>
          (if error \<noteq> None then None
           else (case data of
                   Some row \<Rightarrow> Some \<lparr>id = row_id row, plate_number = row_plate_number row,
                                      timestamp = row_timestamp row,
                                      entry_type = row_entry_type row\<rparr>
                 | None \<Rightarrow> None)))"

text \<open>
  The two service calls as \<open>addParkingEntry\<close> awaits them. The page guards both with
  one \<open>try\<close>, so the model lets either call throw.
\<close>

record Service =
  svcCheckDuplicate :: "string \<Rightarrow> EntryType \<Rightarrow> bool Outcome"
  svcInsert :: "string \<Rightarrow> EntryType \<Rightarrow> ParkingEntry option Outcome"

text \<open>\<open>parkingService\<close>: its methods catch every exception themselves.\<close>

definition parkingService :: "'e Supabase \<Rightarrow> int \<Rightarrow> int \<Rightarrow> Service" where
  "parkingService sb now stamp =
     \<lparr>svcCheckDuplicate = (\<lambda>p t. Returned (checkDuplicateEntry sb now p t)),
      svcInsert = (\<lambda>p t. Returned (insertEntry sb stamp p t))\<rparr>"

definition failedToSave :: "Page \<Rightarrow> Page" where
  "failedToSave st = st\<lparr>toasts := toasts st @ [''Failed to Save Entry'']\<rparr>"

definition addParkingEntry_remote :: "Service \<Rightarrow> string \<Rightarrow> EntryType \<Rightarrow> Page \<Rightarrow> Page" where
  "addParkingEntry_remote svc plateNumber entryType st =
     (case svcCheckDuplicate svc plateNumber entryType of
        Thrown \<Rightarrow> failedToSave st
      | Returned isDuplicate \<Rightarrow>
          (if isDuplicate
           then st\<lparr>toasts := toasts st @ [''Duplicate Entry Detected'']\<rparr>
           else (case svcInsert svc plateNumber entryType of
                   Thrown \<Rightarrow> failedToSave st
                 | Returned (Some newEntry) \<Rightarrow>
                     st\<lparr>parkingEntries := newEntry # parkingEntries st,
                        toasts := toasts st @ [''License Plate Scanned'']\<rparr>
                 | Returned None \<Rightarrow> failedToSave st)))"



text \<open>
  The Duplicate Guard in the words of the specification: some entry has the same plate,
  the same direction and a timestamp within the trailing five-minute window ending now.
\<close>

fun withinTrailingWindow :: "int \<Rightarrow> Date \<Rightarrow> bool" where
  "withinTrailingWindow now (Time t) = (now - 5 * 60 * 1000 < t \<and> t \<le> now)"
| "withinTrailingWindow now InvalidDate = False"

definition duplicateBySpec :: "int \<Rightarrow> string \<Rightarrow> EntryType \<Rightarrow> ParkingEntry list \<Rightarrow> bool" where
  "duplicateBySpec now plate direction entries =
     list_ex (\<lambda>e. plate_number e = plate \<and> entry_type e = direction \<and>
                  withinTrailingWindow now (timestamp e)) entries"

section \<open>Calendar arithmetic of Date (ECMAScript, Time Values and Time Range)\<close>

text \<open>
  The methods of \<open>Date\<close> belong to the platform, not to the repository. They are
  modelled here after the ECMAScript language specification, sections
  \<open>Time Values and Time Range\<close> to \<open>Date Time String Format\<close>.
\<close>

definition msPerDay :: int where
  "msPerDay = 86400000"

definition Day :: "int \<Rightarrow> int" where
  "Day t = t div msPerDay"

definition TimeWithinDay :: "int \<Rightarrow> int" where
  "TimeWithinDay t = t mod msPerDay"

definition DaysInYear :: "int \<Rightarrow> int" where
  "DaysInYear y =
     (if y mod 4 \<noteq> 0 then 365 else if y mod 100 \<noteq> 0 then 366
      else if y mod 400 \<noteq> 0 then 365 else 366)"

definition DayFromYear :: "int \<Rightarrow> int" where
  "DayFromYear y =
     365 * (y - 1970) + (y - 1969) div 4 - (y - 1901) div 100 + (y - 1601) div 400"

text \<open>
  \<open>YearFromTime(t)\<close> is the largest year \<open>y\<close> with \<open>DayFromYear(y) \<le> Day(t)\<close>. It is
  found by counting up from a year that is not after it.
\<close>

function yearSearch :: "int \<Rightarrow> int \<Rightarrow> int" where
  "yearSearch y d = (if DayFromYear (y + 1) \<le> d then yearSearch (y + 1) d else y)"
  by pat_completeness auto
termination
proof (relation "measure (\<lambda>(y, d). nat (d + 1 - DayFromYear (y + 1)))")
  show "wf (measure (\<lambda>(y, d). nat (d + 1 - DayFromYear (y + 1))))"
    by simp
next
  fix y d :: int
  assume a: "DayFromYear (y + 1) \<le> d"
  have up: "u div k \<le> (u + 1) div k" if "0 < k" for u k :: int
    using that by (simp add: zdiv_mono1)
  have down: "(u + 1) div k \<le> u div k + 1" if "0 < k" for u k :: int
  proof -
    from that have "(u + 1) div k \<le> (u + k) div k"
      by (intro zdiv_mono1) simp_all
    also from that have "(u + k) div k = u div k + 1"
      by (simp add: div_add_self2)
    finally show ?thesis .
  qed
  have "(y - 1968) div 4 \<le> (y - 1968 + 1) div 4"
    by (rule up) simp
  moreover have "(y - 1900 + 1) div 100 \<le> (y - 1900) div 100 + 1"
    by (rule down) simp
  moreover have "(y - 1600) div 400 \<le> (y - 1600 + 1) div 400"
    by (rule up) simp
  ultimately have "DayFromYear (y + 1) < DayFromYear (y + 1 + 1)"
    by (simp add: DayFromYear_def)
  with a show "((y + 1, d), (y, d)) \<in> measure (\<lambda>(y, d). nat (d + 1 - DayFromYear (y + 1)))"
    by simp
qed

definition YearFromDay :: "int \<Rightarrow> int" where
  "YearFromDay d =
     yearSearch (1970 + (if 0 \<le> d then d div 366 else d div 365)) d"

definition YearFromTime :: "int \<Rightarrow> int" where
  "YearFromTime t = YearFromDay (Day t)"

definition InLeapYear :: "int \<Rightarrow> int" where
  "InLeapYear y = (if DaysInYear y = 366 then 1 else 0)"

text \<open>The day number within the year at which each month starts (month 0 is January).\<close>

definition monthStart :: "int \<Rightarrow> int \<Rightarrow> int" where
  "monthStart leap m =
     (if m = 0 then 0 else if m = 1 then 31 else if m = 2 then 59 + leap
      else if m = 3 then 90 + leap else if m = 4 then 120 + leap
      else if m = 5 then 151 + leap else if m = 6 then 181 + leap
      else if m = 7 then 212 + leap else if m = 8 then 243 + leap
      else if m = 9 then 273 + leap else if m = 10 then 304 + leap
      else if m = 11 then 334 + leap else 365 + leap)"

definition MonthFromDay :: "int \<Rightarrow> int \<Rightarrow> int" where
  "MonthFromDay leap dwy =
     (if dwy < 31 then 0 else if dwy < 59 + leap then 1 else if dwy < 90 + leap then 2
      else if dwy < 120 + leap then 3 else if dwy < 151 + leap then 4
      else if dwy < 181 + leap then 5 else if dwy < 212 + leap then 6
      else if dwy < 243 + leap then 7 else if dwy < 273 + leap then 8
      else if dwy < 304 + leap then 9 else if dwy < 334 + leap then 10 else 11)"

definition DayWithinYear :: "int \<Rightarrow> int" where
  "DayWithinYear t = Day t - DayFromYear (YearFromTime t)"

definition MonthFromTime :: "int \<Rightarrow> int" where
  "MonthFromTime t = MonthFromDay (InLeapYear (YearFromTime t)) (DayWithinYear t)"

definition DateFromTime :: "int \<Rightarrow> int" where
  "DateFromTime t =
     DayWithinYear t - monthStart (InLeapYear (YearFromTime t)) (MonthFromTime t) + 1"


definition HourFromTime :: "int \<Rightarrow> int" where
  "HourFromTime t = (t div 3600000) mod 24"

definition MinFromTime :: "int \<Rightarrow> int" where
  "MinFromTime t = (t div 60000) mod 60"

definition SecFromTime :: "int \<Rightarrow> int" where
  "SecFromTime t = (t div 1000) mod 60"

definition msFromTime :: "int \<Rightarrow> int" where
  "msFromTime t = t mod 1000"

definition MakeTime :: "int \<Rightarrow> int \<Rightarrow> int \<Rightarrow> int \<Rightarrow> int" where
  "MakeTime hour minute sec ms = hour * 3600000 + minute * 60000 + sec * 1000 + ms"

definition MakeDay :: "int \<Rightarrow> int \<Rightarrow> int \<Rightarrow> int" where
  "MakeDay year month date = DayFromYear year + monthStart (InLeapYear year) month + date - 1"

definition MakeDate :: "int \<Rightarrow> int \<Rightarrow> int" where
  "MakeDate day time = day * msPerDay + time"

text \<open>A time value that a Date can hold (\<open>TimeClip\<close>).\<close>

definition maxTime :: int where
  "maxTime = 8640000000000000"

definition TimeClip :: "int \<Rightarrow> Date" where
  "TimeClip t = (if \<bar>t\<bar> > maxTime then InvalidDate else Time t)"


section \<open>Date strings (ECMAScript, Date Time String Format)\<close>

definition digitChar :: "nat \<Rightarrow> char" where
  "digitChar k = char_of (48 + k)"

text \<open>The last \<open>n\<close> decimal digits of \<open>k\<close>, with leading zeros.\<close>

fun padDigits :: "nat \<Rightarrow> nat \<Rightarrow> string" where
  "padDigits 0 k = []"
| "padDigits (Suc n) k = padDigits n (k div 10) @ [digitChar (k mod 10)]"


text \<open>
  The year of \<open>toISOString\<close>: four digits for the years 0 to 9999, otherwise a sign
  and six digits.
\<close>

definition isoYear :: "int \<Rightarrow> string" where
  "isoYear y =
     (if 0 \<le> y \<and> y \<le> 9999 then padDigits 4 (nat y)
      else (if y < 0 then CHR ''-'' else CHR ''+'') # padDigits 6 (nat \<bar>y\<bar>))"

definition isoString :: "int \<Rightarrow> string" where
  "isoString t =
     isoYear (YearFromTime t) @ ''-'' @ padDigits 2 (nat (MonthFromTime t + 1)) @ ''-'' @
     padDigits 2 (nat (DateFromTime t)) @ ''T'' @ padDigits 2 (nat (HourFromTime t)) @ '':'' @
     padDigits 2 (nat (MinFromTime t)) @ '':'' @ padDigits 2 (nat (SecFromTime t)) @ ''.'' @
     padDigits 3 (nat (msFromTime t)) @ ''Z''"

datatype JsError = RangeError

definition toISOString :: "Date \<Rightarrow> JsError + string" where
  "toISOString d = (case d of InvalidDate \<Rightarrow> Inl RangeError | Time t \<Rightarrow> Inr (isoString t))"

text \<open>\<open>toJSON\<close>, as \<open>JSON.stringify\<close> calls it: null for an invalid Date.\<close>

definition toJSON :: "Date \<Rightarrow> string option" where
  "toJSON d = (case d of InvalidDate \<Rightarrow> None | Time t \<Rightarrow> Some (isoString t))"

definition parseDigits :: "string \<Rightarrow> nat option" where
  "parseDigits s =
     (if s \<noteq> [] \<and> list_all isDigit09 s
      then Some (foldl (\<lambda>v c. 10 * v + ((of_char c :: nat) - 48)) 0 s) else None)"

definition DaysInMonth :: "int \<Rightarrow> int \<Rightarrow> int" where
  "DaysInMonth year month =
     monthStart (InLeapYear year) (month + 1) - monthStart (InLeapYear year) month"

text \<open>
  The fields after the year: \<open>-MM-DDTHH:mm:ss.sssZ\<close>, twenty characters. The result is
  the time value, or InvalidDate when a field is not a number or out of range.
\<close>

definition parseDateTime :: "bool \<Rightarrow> string \<Rightarrow> string \<Rightarrow> Date" where
  "parseDateTime negative ys r =
     (if length r = 20 \<and> map (\<lambda>i. r ! i) [0, 3, 6, 9, 12, 15, 19] = ''--T::.Z''
      then (case parseDigits ys of None \<Rightarrow> InvalidDate | Some y \<Rightarrow>
            case parseDigits (take 2 (drop 1 r)) of None \<Rightarrow> InvalidDate | Some mo \<Rightarrow>
            case parseDigits (take 2 (drop 4 r)) of None \<Rightarrow> InvalidDate | Some d \<Rightarrow>
            case parseDigits (take 2 (drop 7 r)) of None \<Rightarrow> InvalidDate | Some h \<Rightarrow>
            case parseDigits (take 2 (drop 10 r)) of None \<Rightarrow> InvalidDate | Some mi \<Rightarrow>
            case parseDigits (take 2 (drop 13 r)) of None \<Rightarrow> InvalidDate | Some s \<Rightarrow>
            case parseDigits (take 3 (drop 16 r)) of None \<Rightarrow> InvalidDate | Some ms \<Rightarrow>
              (let year = (if negative then - int y else int y)
               in if (negative \<and> y = 0) \<or> mo < 1 \<or> 12 < mo \<or> d < 1 \<or>
                     DaysInMonth year (int mo - 1) < int d \<or> 24 < h \<or>
                     (h = 24 \<and> (mi \<noteq> 0 \<or> s \<noteq> 0 \<or> ms \<noteq> 0)) \<or> 59 < mi \<or> 59 < s
                  then InvalidDate
                  else TimeClip (MakeDate (MakeDay year (int mo - 1) (int d))
                                          (MakeTime (int h) (int mi) (int s) (int ms)))))
      else InvalidDate)"

text \<open>
  \<open>new Date(s)\<close> for a string: the complete form of the Date Time String Format in
  UTC, which is what \<open>toISOString\<close> writes. ECMAScript leaves every other format to the
  implementation; such strings are not modelled and give InvalidDate here.
\<close>

definition parseISO :: "string \<Rightarrow> Date" where
  "parseISO s =
     (case s of
        [] \<Rightarrow> InvalidDate
      | c # cs \<Rightarrow>
          if c = CHR ''+'' \<or> c = CHR ''-''
          then parseDateTime (c = CHR ''-'') (take 6 cs) (drop 6 cs)
          else parseDateTime False (take 4 s) (drop 4 s))"

text \<open>\<open>new Date(v)\<close> for a value read from JSON: null is the number 0.\<close>

definition newDate :: "string option \<Rightarrow> Date" where
  "newDate v = (case v of None \<Rightarrow> TimeClip 0 | Some s \<Rightarrow> parseISO s)"




section \<open>Dashboard Query (components/Dashboard.tsx)\<close>








text \<open>\<open>Array.prototype.join\<close>.\<close>

fun join :: "string \<Rightarrow> string list \<Rightarrow> string" where
  "join sep [] = []"
| "join sep [x] = x"
| "join sep (x # y # ys) = x @ sep @ join sep (y # ys)"

definition entryTypeString :: "EntryType \<Rightarrow> string" where
  "entryTypeString t = (case t of Entry \<Rightarrow> ''Entry'' | Exit \<Rightarrow> ''Exit'')"

text \<open>
  One row of the export. \<open>toISOString\<close> throws a RangeError on an invalid Date, and so
  does the export.
\<close>

definition csvRow :: "ParkingEntry \<Rightarrow> JsError + string" where
  "csvRow entry =
     (case toISOString (timestamp entry) of
        Inl err \<Rightarrow> Inl err
      | Inr isoText \<Rightarrow> Inr (plate_number entry @ '','' @ entryTypeString (entry_type entry) @
                        '','' @ isoText))"

fun csvRows :: "ParkingEntry list \<Rightarrow> JsError + string list" where
  "csvRows [] = Inr []"
| "csvRows (entry # entries) =
     (case csvRow entry of
        Inl err \<Rightarrow> Inl err
      | Inr row \<Rightarrow> (case csvRows entries of Inl err \<Rightarrow> Inl err | Inr rows \<Rightarrow> Inr (row # rows)))"

text \<open>\<open>exportData\<close>: the text \<open>csvContent\<close> of the downloaded file.\<close>

definition exportData :: "ParkingEntry list \<Rightarrow> JsError + string" where
  "exportData filtered =
     (case csvRows filtered of
        Inl err \<Rightarrow> Inl err
      | Inr rows \<Rightarrow> Inr (join [CHR 0x0A] (''Plate Number,Entry Type,Timestamp'' # rows)))"

text \<open>The lines of a text: the pieces between the line feeds.\<close>

fun splitLines :: "string \<Rightarrow> string list" where
  "splitLines [] = [[]]"
| "splitLines (c # cs) =
     (if c = CHR 0x0A then [] # splitLines cs
      else (case splitLines cs of l # ls \<Rightarrow> (c # l) # ls | [] \<Rightarrow> [[c]]))"

section \<open>Persistence in localStorage (pages/Index.tsx, earlier revision)\<close>

text \<open>
  The persisted shape of an entry: what \<open>JSON.stringify\<close> writes and \<open>JSON.parse\<close>
  reads back, with the timestamp as the result of \<open>toJSON\<close> (a string, or null).
\<close>

record StoredEntry =
  stored_id :: string
  stored_plate_number :: string
  stored_timestamp :: "string option"
  stored_entry_type :: EntryType

definition stringifyEntry :: "ParkingEntry \<Rightarrow> StoredEntry" where
  "stringifyEntry entry =
     \<lparr>stored_id = id entry, stored_plate_number = plate_number entry,
      stored_timestamp = toJSON (timestamp entry), stored_entry_type = entry_type entry\<rparr>"

text \<open>The save effect: the value stored under the key \<open>smartpark-entries\<close>.\<close>

definition saveEntries :: "ParkingEntry list \<Rightarrow> StoredEntry list" where
  "saveEntries entries = map stringifyEntry entries"

text \<open>
  The load effect: \<open>savedEntries\<close> is what \<open>getItem\<close> returns, None for null.
\<close>

definition loadEntries :: "StoredEntry list option \<Rightarrow> Page \<Rightarrow> Page" where
  "loadEntries savedEntries st =
     (case savedEntries of
        None \<Rightarrow> st
      | Some entries \<Rightarrow>
          (let entriesWithDates = map
                 (\<lambda>entry. \<lparr>id = stored_id entry, plate_number = stored_plate_number entry,
                           timestamp = newDate (stored_timestamp entry),
                           entry_type = stored_entry_type entry\<rparr>) entries
           in st\<lparr>parkingEntries := entriesWithDates\<rparr>))"

text \<open>A Date that holds a time value.\<close>

definition validDate :: "Date \<Rightarrow> bool" where
  "validDate d = (case d of InvalidDate \<Rightarrow> False | Time t \<Rightarrow> \<bar>t\<bar> \<le> maxTime)"

text \<open>The time value cut to whole seconds.\<close>

definition toTheSecond :: "Date \<Rightarrow> int option" where
  "toTheSecond d = (case d of InvalidDate \<Rightarrow> None | Time t \<Rightarrow> Some (t div 1000))"

text \<open>
  A row of the export in the words of the specification: plate, direction and the
  timestamp in ISO-8601, separated by commas.
\<close>

definition isoText :: "Date \<Rightarrow> string" where
  "isoText d = (case d of InvalidDate \<Rightarrow> [] | Time t \<Rightarrow> isoString t)"

definition csvLine :: "ParkingEntry \<Rightarrow> string" where
  "csvLine e =
     plate_number e @ '','' @ entryTypeString (entry_type e) @ '','' @ isoText (timestamp e)"

definition csvHeader :: string where
  "csvHeader = ''Plate Number,Entry Type,Timestamp''"

section \<open>Image Preprocessor (components/CameraScanner.tsx)\<close>

text \<open>
  The numbers of \<open>preprocessImage\<close> are IEEE 754 doubles. Every double that occurs
  there is a non-negative multiple of \<open>1 / 2 ^ 56\<close> below 256, and is modelled by that
  multiple, an integer: \<open>n\<close> stands for \<open>n / 2 ^ 56\<close>.
\<close>

function bitLength :: "int \<Rightarrow> nat" where
  "bitLength n = (if n \<le> 0 then 0 else Suc (bitLength (n div 2)))"
  by pat_completeness auto
termination
  by (relation "measure nat") simp_all

declare bitLength.simps [simp del]

text \<open>
  The result of an arithmetic operation: the exact value rounded to 53 significant
  bits, to the nearest, ties to even.
\<close>

definition roundDouble :: "int \<Rightarrow> int" where
  "roundDouble n =
     (let b = bitLength n
      in if b \<le> 53 then n
         else (let sh = b - 53; q = n div 2 ^ sh; r = n mod 2 ^ sh; half = 2 ^ (sh - 1)
               in (if r > half \<or> (r = half \<and> odd q) then q + 1 else q) * 2 ^ sh))"

text \<open>The doubles nearest to the literals 0.299, 0.587 and 0.114.\<close>

definition c299 :: int where "c299 = 21545220617340452"
definition c587 :: int where "c587 = 42297807700263696"
definition c114 :: int where "c114 = 8214565720323785"

text \<open>\<open>Math.round\<close>: the nearest integer, a half rounded up.\<close>

definition MathRound :: "int \<Rightarrow> int" where
  "MathRound n = (n + 2 ^ 55) div 2 ^ 56"

text \<open>
  \<open>Math.round(0.299 * data[i] + 0.587 * data[i + 1] + 0.114 * data[i + 2])\<close>; an
  element of the array is an integer from 0 to 255, which a double holds exactly.
\<close>

definition gray :: "8 word \<Rightarrow> 8 word \<Rightarrow> 8 word \<Rightarrow> int" where
  "gray r g b =
     MathRound (roundDouble (roundDouble (roundDouble (c299 * uint r) +
                                          roundDouble (c587 * uint g)) +
                             roundDouble (c114 * uint b)))"






section \<open>Properties of the Plate Normalizer\<close>

lemma isUpperAZ_set:
  "isUpperAZ c \<longleftrightarrow> c \<in> set ''ABCDEFGHIJKLMNOPQRSTUVWXYZ''"
proof
  assume "isUpperAZ c"
  then have "(of_char c :: nat) \<in> {65..<91}"
    by (simp add: isUpperAZ_def)
  then have "(of_char c :: nat) \<in> set [65..<91]"
    by (simp only: atLeastLessThan_upt)
  then have "char_of (of_char c :: nat) \<in> char_of ` set [65..<91::nat]"
    by (rule imageI)
  then have "c \<in> set (map char_of [65..<91::nat])"
    by simp
  also have "map char_of [65..<91::nat] = ''ABCDEFGHIJKLMNOPQRSTUVWXYZ''"
    by code_simp
  finally show "c \<in> set ''ABCDEFGHIJKLMNOPQRSTUVWXYZ''" .
next
  assume "c \<in> set ''ABCDEFGHIJKLMNOPQRSTUVWXYZ''"
  then show "isUpperAZ c"
    by (auto simp: isUpperAZ_def)
qed

lemma isDigit09_set: "isDigit09 c \<longleftrightarrow> c \<in> set ''0123456789''"
proof
  assume "isDigit09 c"
  then have "(of_char c :: nat) \<in> {48..<58}"
    by (simp add: isDigit09_def)
  then have "(of_char c :: nat) \<in> set [48..<58]"
    by (simp only: atLeastLessThan_upt)
  then have "char_of (of_char c :: nat) \<in> char_of ` set [48..<58::nat]"
    by (rule imageI)
  then have "c \<in> set (map char_of [48..<58::nat])"
    by simp
  also have "map char_of [48..<58::nat] = ''0123456789''"
    by code_simp
  finally show "c \<in> set ''0123456789''" .
next
  assume "c \<in> set ''0123456789''"
  then show "isDigit09 c"
    by (auto simp: isDigit09_def)
qed

lemma upper_range: "97 \<le> (n::nat) \<Longrightarrow> n \<le> 122 \<Longrightarrow> 65 \<le> (n - 32) mod 256 \<and> (n - 32) mod 256 \<le> 90"
  by auto

lemma upperChar_lower:
  assumes "isLowerAZ c"
  shows "isUpperAZ (upperChar c)"
  using assms upper_range [of "of_char c"]
  by (simp add: isUpperAZ_def isLowerAZ_def upperChar_def)

lemma upperChar_alnum:
  assumes "isAlnumI c"
  shows "isUpperAZ (upperChar c) \<or> isDigit09 (upperChar c)"
proof (cases "isLowerAZ c")
  case True
  then show ?thesis by (simp add: upperChar_lower)
next
  case False
  with assms show ?thesis by (auto simp: isAlnumI_def upperChar_def)
qed

lemma replaceAll_class:
  assumes "isDigit09 d" and "\<forall>x \<in> set s. isUpperAZ x \<or> isDigit09 x"
  shows "\<forall>x \<in> set (replaceAll c d s). isUpperAZ x \<or> isDigit09 x"
  using assms by (auto simp: replaceAll_def replaceChar_def)

lemma stripped_class:
  "\<forall>x \<in> set (toUpperCase (filter isAlnumI text)). isUpperAZ x \<or> isDigit09 x"
  by (auto simp: toUpperCase_def dest: upperChar_alnum)

lemma cleanPlateNumber_class:
  "\<forall>x \<in> set (cleanPlateNumber text). isUpperAZ x \<or> isDigit09 x"
  unfolding cleanPlateNumber_def Let_def
  by (intro replaceAll_class stripped_class) (simp_all add: isDigit09_def)

lemma substitute_chain:
  "replaceChar (CHR ''U'') (CHR ''0'')
     (replaceChar (CHR ''D'') (CHR ''0'')
     (replaceChar (CHR ''B'') (CHR ''8'')
     (replaceChar (CHR ''G'') (CHR ''6'')
     (replaceChar (CHR ''Z'') (CHR ''2'')
     (replaceChar (CHR ''S'') (CHR ''5'')
     (replaceChar (CHR ''L'') (CHR ''1'')
     (replaceChar (CHR ''I'') (CHR ''1'')
     (replaceChar (CHR ''Q'') (CHR ''0'')
     (replaceChar (CHR ''O'') (CHR ''0'') c))))))))) = substitute c"
proof (cases "c \<in> set ''OQILSZGBDU''")
  case True
  then consider "c = CHR ''O''" | "c = CHR ''Q''" | "c = CHR ''I''" | "c = CHR ''L''"
    | "c = CHR ''S''" | "c = CHR ''Z''" | "c = CHR ''G''" | "c = CHR ''B''"
    | "c = CHR ''D''" | "c = CHR ''U''"
    by auto
  then show ?thesis
    by cases (simp_all add: replaceChar_def substitute_def substitutionTable_def)
next
  case False
  then show ?thesis
    by (simp add: replaceChar_def substitute_def substitutionTable_def)
qed

lemma cleanPlateNumber_map:
  "cleanPlateNumber text = map substitute (toUpperCase (filter isAlnumI text))"
  unfolding cleanPlateNumber_def Let_def replaceAll_def map_map comp_def
  by (simp only: substitute_chain)

lemma cleaned_letter_upper:
  assumes "x \<in> set (cleanPlateNumber text)"
  shows "isLetter x \<longleftrightarrow> isUpperAZ x"
proof -
  from assms cleanPlateNumber_class have "isUpperAZ x \<or> isDigit09 x"
    by blast
  then show ?thesis
    by (auto simp: isLetter_def isLowerAZ_def isUpperAZ_def isDigit09_def)
qed

lemma isValidPlateNumber_cleaned:
  "isValidPlateNumber (cleanPlateNumber text) \<longleftrightarrow>
     4 \<le> length (cleanPlateNumber text) \<and> length (cleanPlateNumber text) \<le> 8 \<and>
     ((\<exists>x \<in> set (cleanPlateNumber text). isLetter x) \<or>
      (\<exists>x \<in> set (cleanPlateNumber text). isDigit09 x))"
  using cleaned_letter_upper [of _ "text"]
  by (auto simp: isValidPlateNumber_def Let_def)

text \<open>
  A cleaned string of four or more characters always contains a letter or a digit, so
  for the output of the normalizer the validity rule is the length rule alone.
\<close>

lemma isValidPlateNumber_cleaned_length:
  "isValidPlateNumber (cleanPlateNumber text) \<longleftrightarrow>
     4 \<le> length (cleanPlateNumber text) \<and> length (cleanPlateNumber text) \<le> 8"
proof -
  have "\<exists>x \<in> set (cleanPlateNumber text). isUpperAZ x \<or> isDigit09 x"
    if "4 \<le> length (cleanPlateNumber text)"
  proof -
    from that obtain x xs where "cleanPlateNumber text = x # xs"
      by (cases "cleanPlateNumber text") auto
    with cleanPlateNumber_class [of "text"] show ?thesis
      by auto
  qed
  then show ?thesis
    by (auto simp: isValidPlateNumber_def Let_def)
qed

text \<open>
  C3. For every raw OCR string, the output of the Plate Normalizer contains only the
  characters A to Z and 0 to 9.
\<close>

theorem cleanPlateNumber_charset:
  "set (cleanPlateNumber text) \<subseteq> set ''ABCDEFGHIJKLMNOPQRSTUVWXYZ0123456789''"
proof
  fix x
  assume "x \<in> set (cleanPlateNumber text)"
  with cleanPlateNumber_class have "isUpperAZ x \<or> isDigit09 x"
    by blast
  then have "x \<in> set ''ABCDEFGHIJKLMNOPQRSTUVWXYZ'' \<or> x \<in> set ''0123456789''"
    by (simp only: isUpperAZ_set isDigit09_set)
  then show "x \<in> set ''ABCDEFGHIJKLMNOPQRSTUVWXYZ0123456789''"
    by auto
qed

theorem cleanPlateNumber_charset_witness:
  "cleanPlateNumber ''ka-05 mh_1234!'' = ''KA05MH1234'' \<and>
   set ''KA05MH1234'' \<subseteq> set ''ABCDEFGHIJKLMNOPQRSTUVWXYZ0123456789''"
proof -
  have e: "cleanPlateNumber ''ka-05 mh_1234!'' = ''KA05MH1234''"
    by code_simp
  from cleanPlateNumber_charset [of "''ka-05 mh_1234!''"] e show ?thesis
    by simp
qed

text \<open>
  C4. The Plate Normalizer applies the ordered substitution table O to 0, Q to 0,
  I to 1, L to 1, S to 5, Z to 2, G to 6, B to 8, D to 0, U to 0 to every character
  of the stripped, upper-cased string; the input O0Q yields 000.
\<close>

theorem cleanPlateNumber_substitution:
  "cleanPlateNumber text = map substitute (toUpperCase (filter isAlnumI text)) \<and>
   map substitute ''OQILSZGBDU'' = ''0011526800'' \<and>
   (\<forall>c. c \<notin> set ''OQILSZGBDU'' \<longrightarrow> substitute c = c) \<and>
   cleanPlateNumber ''O0Q'' = ''000''"
proof -
  have "map substitute ''OQILSZGBDU'' = ''0011526800''"
    by (simp add: substitute_def substitutionTable_def)
  moreover have "\<forall>c. c \<notin> set ''OQILSZGBDU'' \<longrightarrow> substitute c = c"
    by (simp add: substitute_def substitutionTable_def)
  moreover have "cleanPlateNumber ''O0Q'' = ''000''"
    by code_simp
  ultimately show ?thesis
    using cleanPlateNumber_map by blast
qed

theorem cleanPlateNumber_substitution_witness:
  "cleanPlateNumber ''sold-by''= map substitute ''SOLDBY'' \<and>
   map substitute ''SOLDBY'' = ''50108Y'' \<and> substitute (CHR ''Y'') = CHR ''Y''"
proof -
  have "toUpperCase (filter isAlnumI ''sold-by'') = ''SOLDBY''"
    by code_simp
  moreover have "map substitute ''SOLDBY'' = ''50108Y''"
    by (simp add: substitute_def substitutionTable_def)
  moreover have "CHR ''Y'' \<notin> set ''OQILSZGBDU''"
    by simp
  ultimately show ?thesis
    using cleanPlateNumber_substitution [of "''sold-by''"] by simp
qed

text \<open>
  C2. A cleaned plate string becomes the extracted plate exactly when its length is
  between 4 and 8, it contains a letter or a digit, and the OCR confidence is greater
  than 30; otherwise the extracted text is empty and confirming records no plate.
\<close>

theorem capture_acceptance:
  "(let c = cleanPlateNumber text;
        accepted = (4 \<le> length c \<and> length c \<le> 8 \<and>
                    ((\<exists>x \<in> set c. isLetter x) \<or> (\<exists>x \<in> set c. isDigit09 x)) \<and>
                    confidence > 30)
    in extractedText (capture text confidence st) = (if accepted then c else []) \<and>
       fst (confirmPlate (capture text confidence st)) =
         (if accepted then Some (c, selectedEntryType st) else None))"
proof -
  let ?c = "cleanPlateNumber text"
  let ?ok = "4 \<le> length ?c \<and> length ?c \<le> 8 \<and>
             ((\<exists>x \<in> set ?c. isLetter x) \<or> (\<exists>x \<in> set ?c. isDigit09 x))"
  have v: "isValidPlateNumber ?c \<longleftrightarrow> ?ok"
    by (rule isValidPlateNumber_cleaned)
  show ?thesis
  proof (cases "?ok \<and> confidence > 30")
    case True
    then have "?c \<noteq> []"
      by auto
    with True v show ?thesis
      by (simp add: capture_def confirmPlate_def Let_def)
  next
    case False
    with v show ?thesis
      by (auto simp: capture_def confirmPlate_def Let_def)
  qed
qed

theorem capture_acceptance_witness:
  "extractedText (capture ''ka-05 mh'' 31
      \<lparr>extractedText = ''OLD'', selectedEntryType = Exit, notices = []\<rparr>) = ''KA05MH'' \<and>
   fst (confirmPlate (capture ''ka-05 mh'' 31
      \<lparr>extractedText = ''OLD'', selectedEntryType = Exit, notices = []\<rparr>)) = Some (''KA05MH'', Exit) \<and>
   extractedText (capture ''ka-05 mh'' 30
      \<lparr>extractedText = ''OLD'', selectedEntryType = Exit, notices = []\<rparr>) = [] \<and>
   fst (confirmPlate (capture ''ka-05 mh'' 30
      \<lparr>extractedText = ''OLD'', selectedEntryType = Exit, notices = []\<rparr>)) = None"
proof -
  have e: "cleanPlateNumber ''ka-05 mh'' = ''KA05MH''"
    by code_simp
  have d: "isDigit09 (CHR ''0'')"
    by (simp add: isDigit09_def)
  show ?thesis
    using capture_acceptance [of "''ka-05 mh''" 31
            "\<lparr>extractedText = ''OLD'', selectedEntryType = Exit, notices = []\<rparr>"]
          capture_acceptance [of "''ka-05 mh''" 30
            "\<lparr>extractedText = ''OLD'', selectedEntryType = Exit, notices = []\<rparr>"]
    by (simp add: e d Let_def)
qed

section \<open>Properties of the Duplicate Guard and the Log Store\<close>







text \<open>
  Where no entry is stamped later than now, the guard of the code and the window of the
  specification agree.
\<close>

lemma duplicateBySpec_when_no_future:
  assumes "\<forall>e \<in> set entries. \<forall>t. timestamp e = Time t \<longrightarrow> t \<le> now"
  shows "duplicateBySpec now p d entries \<longleftrightarrow>
           (\<exists>e \<in> set entries. plate_number e = p \<and> entry_type e = d \<and>
              dateGt (timestamp e) (Time (now - 5 * 60 * 1000)))"
proof -
  have "withinTrailingWindow now (timestamp e) \<longleftrightarrow>
          dateGt (timestamp e) (Time (now - 5 * 60 * 1000))" if "e \<in> set entries" for e
    using assms that by (cases "timestamp e") auto
  then show ?thesis
    by (auto simp: duplicateBySpec_def list_ex_iff)
qed




lemma addParkingEntry_remote_entries:
  "parkingEntries (addParkingEntry_remote svc p d st) =
     (case svcCheckDuplicate svc p d of
        Returned False \<Rightarrow>
          (case svcInsert svc p d of
             Returned (Some e) \<Rightarrow> e # parkingEntries st
           | _ \<Rightarrow> parkingEntries st)
      | _ \<Rightarrow> parkingEntries st)"
  by (simp add: addParkingEntry_remote_def failedToSave_def
           split: Outcome.splits option.splits)

lemma insertEntry_failure:
  assumes "insertRow sb p d (Time stamp) = Threw \<or>
           (\<exists>data err. insertRow sb p d (Time stamp) = Resolved data (Some err)) \<or>
           insertRow sb p d (Time stamp) = Resolved None None"
  shows "insertEntry sb stamp p d = None"
  using assms by (auto simp: insertEntry_def)

text \<open>
  C5. If the insert into the external store fails (the service call yields no created
  row, or throws), the remote-backed addParkingEntry leaves the entry list unchanged
  and, when the request was not a duplicate, shows the notice that saving failed. The
  service yields no created row whenever the store's insert throws, reports an error
  or returns no data.
\<close>

theorem insert_failure_leaves_entries:
  "(svcInsert svc p d = Returned None \<or> svcInsert svc p d = Thrown \<longrightarrow>
      parkingEntries (addParkingEntry_remote svc p d st) = parkingEntries st \<and>
      (svcCheckDuplicate svc p d = Returned False \<longrightarrow>
         toasts (addParkingEntry_remote svc p d st) =
           toasts st @ [''Failed to Save Entry''])) \<and>
   (insertRow sb p d (Time stamp) = Threw \<or>
    (\<exists>data err. insertRow sb p d (Time stamp) = Resolved data (Some err)) \<or>
    insertRow sb p d (Time stamp) = Resolved None None \<longrightarrow>
      svcInsert (parkingService sb now stamp) p d = Returned None)"
proof -
  have "parkingEntries (addParkingEntry_remote svc p d st) = parkingEntries st"
    if "svcInsert svc p d = Returned None \<or> svcInsert svc p d = Thrown"
    using that by (auto simp: addParkingEntry_remote_entries split: Outcome.splits bool.splits)
  moreover have "toasts (addParkingEntry_remote svc p d st) =
      toasts st @ [''Failed to Save Entry'']"
    if "svcInsert svc p d = Returned None \<or> svcInsert svc p d = Thrown"
      and "svcCheckDuplicate svc p d = Returned False"
    using that by (auto simp: addParkingEntry_remote_def failedToSave_def)
  moreover have "svcInsert (parkingService sb now stamp) p d = Returned None"
    if "insertRow sb p d (Time stamp) = Threw \<or>
        (\<exists>data err. insertRow sb p d (Time stamp) = Resolved data (Some err)) \<or>
        insertRow sb p d (Time stamp) = Resolved None None"
    using insertEntry_failure [OF that] by (simp add: parkingService_def)
  ultimately show ?thesis
    by blast
qed

theorem insert_failure_leaves_entries_witness:
  "parkingEntries
     (addParkingEntry_remote
        (parkingService
           \<lparr>selectRecent = (\<lambda>_ _ _. Resolved (Some []) None),
            insertRow = (\<lambda>_ _ _. Resolved None (Some ''network''))\<rparr>
           1700000000000 1700000000001)
        ''KA05MH'' Entry
        \<lparr>parkingEntries = [\<lparr>id = ''r1'', plate_number = ''ABC123'',
            timestamp = Time 1699999880000, entry_type = Entry\<rparr>], toasts = []\<rparr>) =
     [\<lparr>id = ''r1'', plate_number = ''ABC123'',
        timestamp = Time 1699999880000, entry_type = Entry\<rparr>] \<and>
   toasts
     (addParkingEntry_remote
        (parkingService
           \<lparr>selectRecent = (\<lambda>_ _ _. Resolved (Some []) None),
            insertRow = (\<lambda>_ _ _. Resolved None (Some ''network''))\<rparr>
           1700000000000 1700000000001)
        ''KA05MH'' Entry
        \<lparr>parkingEntries = [\<lparr>id = ''r1'', plate_number = ''ABC123'',
            timestamp = Time 1699999880000, entry_type = Entry\<rparr>], toasts = []\<rparr>) =
     [''Failed to Save Entry'']"
proof -
  let ?sb = "\<lparr>selectRecent = (\<lambda>_ _ _. Resolved (Some []) None),
              insertRow = (\<lambda>_ _ _. Resolved None (Some ''network''))\<rparr>
             :: string Supabase"
  let ?svc = "parkingService ?sb 1700000000000 1700000000001"
  let ?st = "\<lparr>parkingEntries = [\<lparr>id = ''r1'', plate_number = ''ABC123'',
            timestamp = Time 1699999880000, entry_type = Entry\<rparr>], toasts = []\<rparr>"
  have i: "svcInsert ?svc ''KA05MH'' Entry = Returned None"
    by (simp add: parkingService_def insertEntry_def)
  have c: "svcCheckDuplicate ?svc ''KA05MH'' Entry = Returned False"
    by (simp add: parkingService_def checkDuplicateEntry_def)
  from insert_failure_leaves_entries [of ?svc "''KA05MH''" Entry ?st ?sb 1700000000001
         1700000000000] i c
  show ?thesis
    by simp
qed

text \<open>
  C10. Whenever the existence query of the duplicate check fails (the query throws or
  resolves with an error), checkDuplicateEntry answers false, and addParkingEntry goes
  on to the insert: the outcome of the request is the outcome of the insert.
\<close>

theorem checkDuplicate_fails_open:
  assumes "selectRecent sb p d (Time (now - 5 * 60 * 1000)) = Threw \<or>
           (\<exists>data err. selectRecent sb p d (Time (now - 5 * 60 * 1000)) =
                          Resolved data (Some err))"
  shows "checkDuplicateEntry sb now p d = False \<and>
         addParkingEntry_remote (parkingService sb now stamp) p d st =
           (case insertEntry sb stamp p d of
              Some newEntry \<Rightarrow> st\<lparr>parkingEntries := newEntry # parkingEntries st,
                                   toasts := toasts st @ [''License Plate Scanned'']\<rparr>
            | None \<Rightarrow> st\<lparr>toasts := toasts st @ [''Failed to Save Entry'']\<rparr>)"
proof -
  from assms have f: "checkDuplicateEntry sb now p d = False"
    by (auto simp: checkDuplicateEntry_def)
  then show ?thesis
    by (simp add: addParkingEntry_remote_def parkingService_def failedToSave_def
             split: option.splits)
qed

theorem checkDuplicate_fails_open_witness:
  "checkDuplicateEntry
     \<lparr>selectRecent = (\<lambda>_ _ _. Resolved None (Some ''timeout'')),
      insertRow = (\<lambda>p t s. Resolved (Some \<lparr>row_id = ''r2'', row_plate_number = p,
                     row_timestamp = s, row_entry_type = t\<rparr>) None)\<rparr>
     1700000000000 ''ABC123'' Entry = False \<and>
   parkingEntries
     (addParkingEntry_remote
        (parkingService
           \<lparr>selectRecent = (\<lambda>_ _ _. Resolved None (Some ''timeout'')),
            insertRow = (\<lambda>p t s. Resolved (Some \<lparr>row_id = ''r2'', row_plate_number = p,
                     row_timestamp = s, row_entry_type = t\<rparr>) None)\<rparr>
           1700000000000 1700000000001)
        ''ABC123'' Entry
        \<lparr>parkingEntries = [\<lparr>id = ''r1'', plate_number = ''ABC123'',
            timestamp = Time 1699999880000, entry_type = Entry\<rparr>], toasts = []\<rparr>) =
     [\<lparr>id = ''r2'', plate_number = ''ABC123'',
        timestamp = Time 1700000000001, entry_type = Entry\<rparr>,
      \<lparr>id = ''r1'', plate_number = ''ABC123'',
        timestamp = Time 1699999880000, entry_type = Entry\<rparr>]"
proof -
  let ?sb = "\<lparr>selectRecent = (\<lambda>_ _ _. Resolved None (Some ''timeout'')),
      insertRow = (\<lambda>p t s. Resolved (Some \<lparr>row_id = ''r2'', row_plate_number = p,
                     row_timestamp = s, row_entry_type = t\<rparr>) None)\<rparr> :: string Supabase"
  have h: "selectRecent ?sb ''ABC123'' Entry (Time (1700000000000 - 5 * 60 * 1000)) = Threw \<or>
           (\<exists>data err. selectRecent ?sb ''ABC123'' Entry (Time (1700000000000 - 5 * 60 * 1000)) =
                          Resolved data (Some err))"
    by simp
  have i: "insertEntry ?sb 1700000000001 ''ABC123'' Entry =
             Some \<lparr>id = ''r2'', plate_number = ''ABC123'',
                   timestamp = Time 1700000000001, entry_type = Entry\<rparr>"
    by (simp add: insertEntry_def)
  from checkDuplicate_fails_open [OF h, of 1700000000001
         "\<lparr>parkingEntries = [\<lparr>id = ''r1'', plate_number = ''ABC123'',
            timestamp = Time 1699999880000, entry_type = Entry\<rparr>], toasts = []\<rparr>"]
  show ?thesis
    by (simp add: i)
qed

section \<open>Properties of the Dashboard Query\<close>









section \<open>Properties of the calendar arithmetic\<close>

lemma div_succ:
  fixes u k :: int
  assumes "1 < k"
  shows "(u + 1) div k = u div k + (if (u + 1) mod k = 0 then 1 else 0)"
proof -
  let ?r = "u mod k"
  have m: "0 \<le> ?r" "?r < k"
    using assms by simp_all
  have one: "1 div k = 0" "1 mod k = 1"
    using assms by simp_all
  have d: "(u + 1) div k = u div k + (?r + 1) div k"
    using div_add1_eq [of u 1 k] by (simp add: one)
  have r: "(u + 1) mod k = (?r + 1) mod k"
    by (simp add: mod_add_left_eq)
  show ?thesis
  proof (cases "?r + 1 = k")
    case True
    with assms d r show ?thesis by simp
  next
    case False
    with m have lt: "?r + 1 < k" "0 \<le> ?r + 1" by simp_all
    then have "(?r + 1) div k = 0" "(?r + 1) mod k = ?r + 1"
      by simp_all
    with d r m show ?thesis by simp
  qed
qed

lemma mod_shift4: "(y - 1969 + 1) mod 4 = y mod 4" for y :: int
proof -
  have "(y - 1969 + 1) = y + 4 * (- 492)" by simp
  then show ?thesis by (simp only: mod_mult_self2)
qed

lemma mod_shift100: "(y - 1901 + 1) mod 100 = y mod 100" for y :: int
proof -
  have "(y - 1901 + 1) = y + 100 * (- 19)" by simp
  then show ?thesis by (simp only: mod_mult_self2)
qed

lemma mod_shift400: "(y - 1601 + 1) mod 400 = y mod 400" for y :: int
proof -
  have "(y - 1601 + 1) = y + 400 * (- 4)" by simp
  then show ?thesis by (simp only: mod_mult_self2)
qed

lemma mod_400_100:
  fixes y :: int
  assumes "y mod 400 = 0"
  shows "y mod 100 = 0"
proof -
  from assms have "400 dvd y" by (simp add: dvd_eq_mod_eq_0)
  moreover have "(100::int) dvd 400" by simp
  ultimately have "100 dvd y" by (rule dvd_trans [rotated])
  then show ?thesis by (simp add: dvd_eq_mod_eq_0)
qed

lemma mod_100_4:
  fixes y :: int
  assumes "y mod 100 = 0"
  shows "y mod 4 = 0"
proof -
  from assms have "100 dvd y" by (simp add: dvd_eq_mod_eq_0)
  moreover have "(4::int) dvd 100" by simp
  ultimately have "4 dvd y" by (rule dvd_trans [rotated])
  then show ?thesis by (simp add: dvd_eq_mod_eq_0)
qed

lemma DayFromYear_Suc: "DayFromYear (y + 1) = DayFromYear y + DaysInYear y"
proof -
  have a: "(y + 1 - 1969) div 4 = (y - 1969) div 4 + (if y mod 4 = 0 then 1 else 0)"
    using div_succ [of 4 "y - 1969"] by (simp only: mod_shift4) simp
  have b: "(y + 1 - 1901) div 100 = (y - 1901) div 100 + (if y mod 100 = 0 then 1 else 0)"
    using div_succ [of 100 "y - 1901"] by (simp only: mod_shift100) simp
  have c: "(y + 1 - 1601) div 400 = (y - 1601) div 400 + (if y mod 400 = 0 then 1 else 0)"
    using div_succ [of 400 "y - 1601"] by (simp only: mod_shift400) simp
  show ?thesis
    unfolding DayFromYear_def DaysInYear_def a b c
    using mod_400_100 [of y] mod_100_4 [of y] by auto
qed

lemma DaysInYear_cases: "DaysInYear y = 365 \<or> DaysInYear y = 366"
  by (simp add: DaysInYear_def)

lemma InLeapYear_eq: "365 + InLeapYear y = DaysInYear y"
  using DaysInYear_cases [of y] by (auto simp: InLeapYear_def)

lemma div_bounds:
  fixes u k :: int
  assumes "0 < k"
  shows "k * (u div k) \<le> u" and "u < k * (u div k) + k"
proof -
  have "u = k * (u div k) + u mod k" by simp
  moreover from assms have "0 \<le> u mod k" "u mod k < k" by simp_all
  ultimately show "k * (u div k) \<le> u" and "u < k * (u div k) + k"
    by linarith+
qed

lemma yearSearch_correct:
  "DayFromYear y \<le> d \<Longrightarrow>
     DayFromYear (yearSearch y d) \<le> d \<and> d < DayFromYear (yearSearch y d + 1)"
proof (induction y d rule: yearSearch.induct)
  case (1 y d)
  show ?case
  proof (cases "DayFromYear (y + 1) \<le> d")
    case True
    with "1.IH" have "DayFromYear (yearSearch (y + 1) d) \<le> d \<and>
        d < DayFromYear (yearSearch (y + 1) d + 1)"
      by simp
    moreover from True have "yearSearch y d = yearSearch (y + 1) d"
      by (subst yearSearch.simps) simp
    ultimately show ?thesis by simp
  next
    case False
    then have "yearSearch y d = y"
      by (subst yearSearch.simps) simp
    with False "1.prems" show ?thesis by simp
  qed
qed

lemma year_guess_nonneg:
  fixes d :: int
  assumes "0 \<le> d"
  shows "DayFromYear (1970 + d div 366) \<le> d"
proof -
  define k where "k = d div 366"
  define a where "a = (k + 1) div 4"
  define b where "b = (k + 69) div 100"
  define c where "c = (k + 369) div 400"
  have k: "366 * k \<le> d" "0 \<le> k"
    using assms div_bounds(1) [of 366 d] by (simp_all add: k_def)
  have fa: "4 * a \<le> k + 1"
    unfolding a_def by (rule div_bounds) simp
  have fb: "k + 69 < 100 * b + 100"
    unfolding b_def by (rule div_bounds) simp
  have fc: "400 * c \<le> k + 369"
    unfolding c_def by (rule div_bounds) simp
  have "a - b + c \<le> k"
  proof (cases "k \<le> 1")
    case True
    with k consider "k = 0" | "k = 1" by linarith
    then show ?thesis
      by cases (simp_all add: a_def b_def c_def)
  next
    case False
    with fa fb fc show ?thesis by linarith
  qed
  moreover have "DayFromYear (1970 + k) = 365 * k + a - b + c"
    by (simp add: DayFromYear_def a_def b_def c_def algebra_simps)
  ultimately show ?thesis
    using k unfolding k_def [symmetric] by linarith
qed

lemma year_guess_neg:
  fixes d :: int
  assumes "d < 0"
  shows "DayFromYear (1970 + d div 365) \<le> d"
proof -
  define k where "k = d div 365"
  define a where "a = (k + 1) div 4"
  define b where "b = (k + 69) div 100"
  define c where "c = (k + 369) div 400"
  have k: "365 * k \<le> d" "d < 365 * k + 365"
    using div_bounds [of 365 d] by (simp_all add: k_def)
  with assms have kn: "k \<le> - 1" by linarith
  have fa: "4 * a \<le> k + 1"
    unfolding a_def by (rule div_bounds) simp
  have fb: "k + 69 < 100 * b + 100"
    unfolding b_def by (rule div_bounds) simp
  have fc: "400 * c \<le> k + 369"
    unfolding c_def by (rule div_bounds) simp
  have "a - b + c \<le> 0"
  proof (cases "k = - 1")
    case True
    then show ?thesis
      by (simp add: a_def b_def c_def)
  next
    case False
    with kn have "k \<le> - 2" by linarith
    with fa fb fc show ?thesis by linarith
  qed
  moreover have "DayFromYear (1970 + k) = 365 * k + a - b + c"
    by (simp add: DayFromYear_def a_def b_def c_def algebra_simps)
  ultimately show ?thesis
    using k unfolding k_def [symmetric] by linarith
qed

lemma YearFromDay_correct:
  "DayFromYear (YearFromDay d) \<le> d \<and> d < DayFromYear (YearFromDay d + 1)"
proof (cases "0 \<le> d")
  case True
  then show ?thesis
    unfolding YearFromDay_def using yearSearch_correct [OF year_guess_nonneg] by simp
next
  case False
  then show ?thesis
    unfolding YearFromDay_def using yearSearch_correct [OF year_guess_neg] by simp
qed

lemma YearFromDay_bounds:
  assumes "- 100000000 \<le> d" and "d \<le> 100000000"
  shows "- 999999 \<le> YearFromDay d" and "YearFromDay d \<le> 999999"
proof -
  define y where "y = YearFromDay d"
  define a b c where "a = (y - 1969) div 4" and "b = (y - 1901) div 100"
    and "c = (y - 1601) div 400"
  define a' b' c' where "a' = (y + 1 - 1969) div 4" and "b' = (y + 1 - 1901) div 100"
    and "c' = (y + 1 - 1601) div 400"
  have "DayFromYear y \<le> d" and "d < DayFromYear (y + 1)"
    using YearFromDay_correct [of d] by (simp_all add: y_def)
  then have lo: "365 * (y - 1970) + a - b + c \<le> d"
    and hi: "d < 365 * (y + 1 - 1970) + a' - b' + c'"
    by (simp_all only: DayFromYear_def a_def b_def c_def a'_def b'_def c'_def)
  have fa: "y - 1969 < 4 * a + 4"
    unfolding a_def by (rule div_bounds) simp
  have fb: "100 * b \<le> y - 1901"
    unfolding b_def by (rule div_bounds) simp
  have fc: "y - 1601 < 400 * c + 400"
    unfolding c_def by (rule div_bounds) simp
  have fa': "4 * a' \<le> y + 1 - 1969"
    unfolding a'_def by (rule div_bounds) simp
  have fb': "y + 1 - 1901 < 100 * b' + 100"
    unfolding b'_def by (rule div_bounds) simp
  have fc': "400 * c' \<le> y + 1 - 1601"
    unfolding c'_def by (rule div_bounds) simp
  from lo assms(2) fa fb fc have "y \<le> 999999"
    by (simp add: algebra_simps)
  then show "YearFromDay d \<le> 999999"
    by (simp add: y_def)
  from hi assms(1) fa' fb' fc' have "- 999999 \<le> y"
    by (simp add: algebra_simps)
  then show "- 999999 \<le> YearFromDay d"
    by (simp add: y_def)
qed

section \<open>Properties of the date strings\<close>

lemma length_padDigits [simp]: "length (padDigits n k) = n"
  by (induction n arbitrary: k) simp_all

lemma digitChar_value: "d < 10 \<Longrightarrow> (of_char (digitChar d) :: nat) = 48 + d"
  by (simp add: digitChar_def)

lemma digitChar_isDigit: "d < 10 \<Longrightarrow> isDigit09 (digitChar d)"
  by (simp add: isDigit09_def digitChar_value)

lemma padDigits_all_digits: "list_all isDigit09 (padDigits n k)"
  by (induction n arbitrary: k) (simp_all add: digitChar_isDigit)

lemma padDigits_value:
  "foldl (\<lambda>v c. 10 * v + ((of_char c :: nat) - 48)) 0 (padDigits n k) = k mod 10 ^ n"
proof (induction n arbitrary: k)
  case 0
  show ?case by simp
next
  case (Suc n)
  have "foldl (\<lambda>v c. 10 * v + ((of_char c :: nat) - 48)) 0 (padDigits (Suc n) k) =
          10 * (k div 10 mod 10 ^ n) + k mod 10"
    by (simp add: Suc.IH digitChar_value)
  also have "\<dots> = k mod 10 ^ Suc n"
    by (simp add: mod_mult2_eq)
  finally show ?case .
qed

lemma parseDigits_padDigits:
  assumes "0 < n" and "k < 10 ^ n"
  shows "parseDigits (padDigits n k) = Some k"
proof -
  from assms(1) have "padDigits n k \<noteq> []"
    by (metis length_padDigits length_0_conv less_numeral_extra(3))
  with assms(2) show ?thesis
    by (simp add: parseDigits_def padDigits_all_digits padDigits_value)
qed

lemma hd_padDigits_isDigit: "0 < n \<Longrightarrow> isDigit09 (hd (padDigits n k))"
proof -
  assume "0 < n"
  then have "padDigits n k \<noteq> []"
    by (metis length_padDigits length_0_conv less_numeral_extra(3))
  then have "hd (padDigits n k) \<in> set (padDigits n k)"
    by simp
  with padDigits_all_digits [of n k] show ?thesis
    by (simp add: list_all_iff)
qed

lemma InLeapYear_cases: "InLeapYear y = 0 \<or> InLeapYear y = 1"
  by (simp add: InLeapYear_def)

lemma MonthFromDay_range:
  assumes "leap = 0 \<or> leap = 1" and "0 \<le> dwy" and "dwy < 365 + leap"
  shows "0 \<le> MonthFromDay leap dwy" and "MonthFromDay leap dwy \<le> 11"
    and "monthStart leap (MonthFromDay leap dwy) \<le> dwy"
    and "dwy < monthStart leap (MonthFromDay leap dwy + 1)"
  using assms by (auto simp: MonthFromDay_def monthStart_def)

lemma DayWithinYear_range: "0 \<le> DayWithinYear t" "DayWithinYear t < 365 + InLeapYear (YearFromTime t)"
proof -
  let ?y = "YearFromTime t"
  have c: "DayFromYear ?y \<le> Day t" "Day t < DayFromYear (?y + 1)"
    using YearFromDay_correct [of "Day t"] by (simp_all add: YearFromTime_def)
  then show "0 \<le> DayWithinYear t"
    by (simp add: DayWithinYear_def)
  from c show "DayWithinYear t < 365 + InLeapYear ?y"
    by (simp add: DayWithinYear_def DayFromYear_Suc InLeapYear_eq)
qed

lemma MonthFromTime_range: "0 \<le> MonthFromTime t" "MonthFromTime t \<le> 11"
  unfolding MonthFromTime_def
  using MonthFromDay_range(1,2) [OF InLeapYear_cases DayWithinYear_range] by blast+

lemma DateFromTime_range:
  "1 \<le> DateFromTime t"
  "DateFromTime t \<le> DaysInMonth (YearFromTime t) (MonthFromTime t)"
  unfolding DateFromTime_def DaysInMonth_def MonthFromTime_def
  using MonthFromDay_range(3,4) [OF InLeapYear_cases DayWithinYear_range, of t]
  by simp_all

lemma DateFromTime_le_31: "DateFromTime t \<le> 31"
proof -
  have "DaysInMonth y m \<le> 31" if "0 \<le> m" "m \<le> 11" for y m
    using that InLeapYear_cases [of y] by (auto simp: DaysInMonth_def monthStart_def)
  from this [OF MonthFromTime_range, of "YearFromTime t" t] DateFromTime_range(2) [of t]
  show ?thesis
    by linarith
qed

lemma MakeDay_fields:
  "MakeDay (YearFromTime t) (MonthFromTime t) (DateFromTime t) = Day t"
  by (simp add: MakeDay_def DateFromTime_def DayWithinYear_def MonthFromTime_def)

lemma time_fields_range:
  "0 \<le> HourFromTime t" "HourFromTime t \<le> 23" "0 \<le> MinFromTime t" "MinFromTime t \<le> 59"
  "0 \<le> SecFromTime t" "SecFromTime t \<le> 59" "0 \<le> msFromTime t" "msFromTime t \<le> 999"
  by (simp_all add: HourFromTime_def MinFromTime_def SecFromTime_def msFromTime_def)

lemma MakeTime_fields:
  "MakeTime (HourFromTime t) (MinFromTime t) (SecFromTime t) (msFromTime t) = TimeWithinDay t"
proof -
  define s where "s = t div 1000"
  define m where "m = s div 60"
  define h where "h = m div 60"
  define d where "d = h div 24"
  have e1: "t = 1000 * s + t mod 1000" by (simp add: s_def)
  have e2: "s = 60 * m + s mod 60" by (simp add: m_def)
  have e3: "m = 60 * h + m mod 60" by (simp add: h_def)
  have e4: "h = 24 * d + h mod 24" by (simp add: d_def)
  have m_eq: "t div 60000 = m"
    using zdiv_zmult2_eq [of 60 t 1000] by (simp add: m_def s_def)
  have h_eq: "t div 3600000 = h"
    using zdiv_zmult2_eq [of 60 t 60000] by (simp add: h_def m_eq)
  have d_eq: "t div 86400000 = d"
    using zdiv_zmult2_eq [of 24 t 3600000] by (simp add: d_def h_eq)
  have "t mod 86400000 = t - 86400000 * d"
    using d_eq by (metis minus_mult_div_eq_mod)
  also have "\<dots> = h mod 24 * 3600000 + m mod 60 * 60000 + s mod 60 * 1000 + t mod 1000"
    using e1 e2 e3 e4 by linarith
  finally show ?thesis
    by (simp add: MakeTime_def HourFromTime_def MinFromTime_def SecFromTime_def msFromTime_def
          TimeWithinDay_def msPerDay_def m_eq h_eq s_def [symmetric])
qed

lemma MakeDate_Day: "MakeDate (Day t) (TimeWithinDay t) = t"
  by (simp add: MakeDate_def Day_def TimeWithinDay_def)

lemma Day_bounds:
  assumes "\<bar>t\<bar> \<le> maxTime"
  shows "- 100000000 \<le> Day t" and "Day t \<le> 100000000"
proof -
  from assms have "- (100000000 * 86400000) \<le> t" "t \<le> 100000000 * 86400000"
    by (simp_all add: maxTime_def)
  then have "(- (100000000 * 86400000)) div 86400000 \<le> t div 86400000"
    and "t div 86400000 \<le> (100000000 * 86400000) div 86400000"
    by (intro zdiv_mono1; simp)+
  then show "- 100000000 \<le> Day t" and "Day t \<le> 100000000"
    by (simp_all add: Day_def msPerDay_def)
qed

lemma YearFromTime_bounds:
  assumes "\<bar>t\<bar> \<le> maxTime"
  shows "- 999999 \<le> YearFromTime t" and "YearFromTime t \<le> 999999"
  using YearFromDay_bounds [OF Day_bounds [OF assms]] by (simp_all add: YearFromTime_def)

lemma list_of_length_2: "length a = 2 \<Longrightarrow> \<exists>x y. a = [x, y]"
  by (auto simp: length_Suc_conv numeral_2_eq_2)

lemma list_of_length_3: "length a = 3 \<Longrightarrow> \<exists>x y z. a = [x, y, z]"
  by (auto simp: length_Suc_conv numeral_3_eq_3)

lemma dateTime_fields:
  assumes "length a = 2" "length b = 2" "length c = 2" "length d = 2" "length e = 2"
    and "length f = 3"
    and "r = ''-'' @ a @ ''-'' @ b @ ''T'' @ c @ '':'' @ d @ '':'' @ e @ ''.'' @ f @ ''Z''"
  shows "length r = 20 \<and> map (\<lambda>i. r ! i) [0, 3, 6, 9, 12, 15, 19] = ''--T::.Z''"
    and "take 2 (drop 1 r) = a" and "take 2 (drop 4 r) = b" and "take 2 (drop 7 r) = c"
    and "take 2 (drop 10 r) = d" and "take 2 (drop 13 r) = e" and "take 3 (drop 16 r) = f"
proof -
  from assms(1-5) obtain a1 a2 b1 b2 c1 c2 d1 d2 e1 e2
    where "a = [a1, a2]" "b = [b1, b2]" "c = [c1, c2]" "d = [d1, d2]" "e = [e1, e2]"
    by (meson list_of_length_2)
  moreover from assms(6) obtain f1 f2 f3 where "f = [f1, f2, f3]"
    by (meson list_of_length_3)
  ultimately have r: "r = [CHR ''-'', a1, a2, CHR ''-'', b1, b2, CHR ''T'', c1, c2, CHR '':'',
      d1, d2, CHR '':'', e1, e2, CHR ''.'', f1, f2, f3, CHR ''Z'']"
    and l: "a = [a1, a2]" "b = [b1, b2]" "c = [c1, c2]" "d = [d1, d2]" "e = [e1, e2]"
      "f = [f1, f2, f3]"
    using assms(7) by simp_all
  show "length r = 20 \<and> map (\<lambda>i. r ! i) [0, 3, 6, 9, 12, 15, 19] = ''--T::.Z''"
    by (simp add: r)
  show "take 2 (drop 1 r) = a" "take 2 (drop 4 r) = b" "take 2 (drop 7 r) = c"
    "take 2 (drop 10 r) = d" "take 2 (drop 13 r) = e" "take 3 (drop 16 r) = f"
    by (simp_all add: r l)
qed

lemma parseDigits_pad_int:
  assumes "0 \<le> x" and "x < 10 ^ n" and "0 < n"
  shows "parseDigits (padDigits n (nat x)) = Some (nat x)"
proof -
  from assms(1,2) have "nat x < 10 ^ n"
    by (simp add: nat_less_iff)
  with assms(3) show ?thesis
    by (rule parseDigits_padDigits)
qed

lemma parseDateTime_fields:
  assumes ys: "parseDigits ys = Some yn"
    and sign: "\<not> (negative \<and> yn = 0)"
    and year: "(if negative then - int yn else int yn) = YearFromTime t"
    and valid: "\<bar>t\<bar> \<le> maxTime"
  shows "parseDateTime negative ys
           (''-'' @ padDigits 2 (nat (MonthFromTime t + 1)) @ ''-'' @
            padDigits 2 (nat (DateFromTime t)) @ ''T'' @ padDigits 2 (nat (HourFromTime t)) @
            '':'' @ padDigits 2 (nat (MinFromTime t)) @ '':'' @
            padDigits 2 (nat (SecFromTime t)) @ ''.'' @ padDigits 3 (nat (msFromTime t)) @
            ''Z'') = Time t"
proof -
  let ?mo = "nat (MonthFromTime t + 1)" and ?d = "nat (DateFromTime t)"
  let ?h = "nat (HourFromTime t)" and ?mi = "nat (MinFromTime t)"
  let ?s = "nat (SecFromTime t)" and ?ms = "nat (msFromTime t)"
  define r where "r = ''-'' @ padDigits 2 ?mo @ ''-'' @ padDigits 2 ?d @ ''T'' @
      padDigits 2 ?h @ '':'' @ padDigits 2 ?mi @ '':'' @ padDigits 2 ?s @ ''.'' @
      padDigits 3 ?ms @ ''Z''"
  have len: "length (padDigits 2 ?mo) = 2" "length (padDigits 2 ?d) = 2"
    "length (padDigits 2 ?h) = 2" "length (padDigits 2 ?mi) = 2"
    "length (padDigits 2 ?s) = 2" "length (padDigits 3 ?ms) = 3"
    by simp_all
  note f = dateTime_fields [OF len r_def]
  note M = MonthFromTime_range [of t] and D = DateFromTime_range [of t]
    and D31 = DateFromTime_le_31 [of t] and T = time_fields_range [of t]
  have p: "parseDigits (padDigits 2 ?mo) = Some ?mo" "parseDigits (padDigits 2 ?d) = Some ?d"
    "parseDigits (padDigits 2 ?h) = Some ?h" "parseDigits (padDigits 2 ?mi) = Some ?mi"
    "parseDigits (padDigits 2 ?s) = Some ?s" "parseDigits (padDigits 3 ?ms) = Some ?ms"
    using M D D31 T by (auto intro!: parseDigits_pad_int)
  have v: "\<not> (?mo < 1 \<or> 12 < ?mo \<or> ?d < 1 \<or>
      DaysInMonth (YearFromTime t) (int ?mo - 1) < int ?d \<or> 24 < ?h \<or>
      (?h = 24 \<and> (?mi \<noteq> 0 \<or> ?s \<noteq> 0 \<or> ?ms \<noteq> 0)) \<or> 59 < ?mi \<or> 59 < ?s)"
    using M D T by auto
  have i: "int ?mo - 1 = MonthFromTime t" "int ?d = DateFromTime t"
    "int ?h = HourFromTime t" "int ?mi = MinFromTime t" "int ?s = SecFromTime t"
    "int ?ms = msFromTime t"
    using M D T by simp_all
  have "parseDateTime negative ys r =
      TimeClip (MakeDate (MakeDay (YearFromTime t) (int ?mo - 1) (int ?d))
                         (MakeTime (int ?h) (int ?mi) (int ?s) (int ?ms)))"
    unfolding parseDateTime_def
    using sign v by (simp only: f p ys year Let_def option.case if_True if_False) simp
  also have "\<dots> = TimeClip t"
    by (simp only: i MakeDay_fields MakeTime_fields MakeDate_Day)
  also from valid have "\<dots> = Time t"
    by (simp add: TimeClip_def)
  finally show ?thesis
    by (simp only: r_def)
qed

lemma not_digit_sign: "isDigit09 c \<Longrightarrow> c \<noteq> CHR ''+'' \<and> c \<noteq> CHR ''-''"
  by (auto simp: isDigit09_def)

text \<open>Reading back what \<open>toISOString\<close> writes gives the same time value.\<close>

lemma parseISO_isoString:
  assumes valid: "\<bar>t\<bar> \<le> maxTime"
  shows "parseISO (isoString t) = Time t"
proof -
  let ?y = "YearFromTime t"
  define r where "r = ''-'' @ padDigits 2 (nat (MonthFromTime t + 1)) @ ''-'' @
            padDigits 2 (nat (DateFromTime t)) @ ''T'' @ padDigits 2 (nat (HourFromTime t)) @
            '':'' @ padDigits 2 (nat (MinFromTime t)) @ '':'' @
            padDigits 2 (nat (SecFromTime t)) @ ''.'' @ padDigits 3 (nat (msFromTime t)) @
            ''Z''"
  have s: "isoString t = isoYear ?y @ r"
    by (simp add: isoString_def r_def)
  show ?thesis
  proof (cases "0 \<le> ?y \<and> ?y \<le> 9999")
    case True
    define ys where "ys = padDigits 4 (nat ?y)"
    have l: "length ys = 4"
      by (simp add: ys_def)
    then obtain c cs where c: "ys = c # cs"
      by (cases ys) auto
    have "isDigit09 (hd ys)"
      unfolding ys_def by (rule hd_padDigits_isDigit) simp
    with c have nosign: "c \<noteq> CHR ''+'' \<and> c \<noteq> CHR ''-''"
      using not_digit_sign by simp
    from True have p: "parseDigits ys = Some (nat ?y)"
      unfolding ys_def by (intro parseDigits_pad_int) simp_all
    have "parseISO (isoString t) = parseDateTime False (take 4 (ys @ r)) (drop 4 (ys @ r))"
      using True nosign by (simp add: s isoYear_def parseISO_def ys_def [symmetric] c)
    also have "\<dots> = parseDateTime False ys r"
      using l by simp
    also have "\<dots> = Time t"
      unfolding r_def using True by (intro parseDateTime_fields [OF p _ _ valid]) simp_all
    finally show ?thesis .
  next
    case False
    define ys where "ys = padDigits 6 (nat \<bar>?y\<bar>)"
    define sg where "sg = (if ?y < 0 then CHR ''-'' else CHR ''+'')"
    have l: "length ys = 6"
      by (simp add: ys_def)
    have neg: "(sg = CHR ''-'') = (?y < 0)" and sign: "sg = CHR ''+'' \<or> sg = CHR ''-''"
      by (simp_all add: sg_def)
    from YearFromTime_bounds [OF valid] have "\<bar>?y\<bar> < 10 ^ 6"
      by simp
    then have p: "parseDigits ys = Some (nat \<bar>?y\<bar>)"
      unfolding ys_def by (intro parseDigits_pad_int) simp_all
    have "isoYear ?y = sg # ys"
      unfolding isoYear_def ys_def sg_def by (simp only: if_not_P [OF False])
    then have "isoString t = sg # (ys @ r)"
      by (simp add: s)
    then have "parseISO (isoString t) =
        parseDateTime (?y < 0) (take 6 (ys @ r)) (drop 6 (ys @ r))"
      using sign by (simp add: parseISO_def neg)
    also have "\<dots> = parseDateTime (?y < 0) ys r"
      using l by simp
    also have "\<dots> = Time t"
      unfolding r_def by (intro parseDateTime_fields [OF p _ _ valid]) simp_all
    finally show ?thesis .
  qed
qed

lemma padDigits_no_newline: "CHR 0x0A \<notin> set (padDigits n k)"
proof
  assume "CHR 0x0A \<in> set (padDigits n k)"
  with padDigits_all_digits [of n k] have "isDigit09 (CHR 0x0A)"
    by (simp add: list_all_iff)
  then show False
    by (simp add: isDigit09_def)
qed

lemma isoString_no_newline: "CHR 0x0A \<notin> set (isoString t)"
  by (simp add: isoString_def isoYear_def padDigits_no_newline)

section \<open>Properties of the persistence and of the export\<close>

lemma newDate_toJSON:
  assumes "validDate d"
  shows "newDate (toJSON d) = d"
  using assms by (cases d) (simp_all add: validDate_def toJSON_def newDate_def parseISO_isoString)

lemma rehydrate_stringifyEntry:
  assumes "validDate (timestamp e)"
  shows "\<lparr>id = stored_id (stringifyEntry e),
          plate_number = stored_plate_number (stringifyEntry e),
          timestamp = newDate (stored_timestamp (stringifyEntry e)),
          entry_type = stored_entry_type (stringifyEntry e)\<rparr> = e"
  using assms by (simp add: stringifyEntry_def newDate_toJSON)

text \<open>
  Every Date that the local-storage page puts into its list is valid: a new entry is
  stamped with \<open>new Date()\<close>, and a list of valid Dates is read back as it was saved.
\<close>

lemma addParkingEntry_local_valid:
  assumes "\<forall>e \<in> set (parkingEntries st). validDate (timestamp e)" and "\<bar>stamp\<bar> \<le> maxTime"
  shows "\<forall>e \<in> set (parkingEntries (addParkingEntry_local now stamp newId p d st)).
           validDate (timestamp e)"
  using assms
  by (auto simp: addParkingEntry_local_def Let_def validDate_def split: option.splits)

text \<open>
  C6. Round trip through localStorage: for every entry list whose timestamps are valid
  Dates, saving the list in the persisted shape (timestamps as ISO-8601 strings) and
  loading it again gives back the same entries, and so the same (plate, direction,
  timestamp to the second) tuples.
\<close>

theorem persistence_round_trip:
  assumes "\<forall>e \<in> set entries. validDate (timestamp e)"
  shows "parkingEntries (loadEntries (Some (saveEntries entries)) st) = entries \<and>
         map (\<lambda>e. (plate_number e, entry_type e, toTheSecond (timestamp e)))
             (parkingEntries (loadEntries (Some (saveEntries entries)) st)) =
         map (\<lambda>e. (plate_number e, entry_type e, toTheSecond (timestamp e))) entries"
proof -
  have "map (\<lambda>entry. \<lparr>id = stored_id entry, plate_number = stored_plate_number entry,
                       timestamp = newDate (stored_timestamp entry),
                       entry_type = stored_entry_type entry\<rparr>) (map stringifyEntry entries) =
        entries"
    using assms by (induction entries) (simp_all add: rehydrate_stringifyEntry)
  then have "parkingEntries (loadEntries (Some (saveEntries entries)) st) = entries"
    by (simp add: loadEntries_def saveEntries_def)
  then show ?thesis
    by simp
qed

theorem persistence_round_trip_witness:
  "parkingEntries (loadEntries (Some (saveEntries
     [\<lparr>id = ''k3j9x0abc'', plate_number = ''KA05MH'', timestamp = Time 1700000000123,
        entry_type = Entry\<rparr>,
      \<lparr>id = ''z81kq02mn'', plate_number = ''ABC123'', timestamp = Time (- 1),
        entry_type = Exit\<rparr>]))
     \<lparr>parkingEntries = [], toasts = []\<rparr>) =
     [\<lparr>id = ''k3j9x0abc'', plate_number = ''KA05MH'', timestamp = Time 1700000000123,
        entry_type = Entry\<rparr>,
      \<lparr>id = ''z81kq02mn'', plate_number = ''ABC123'', timestamp = Time (- 1),
        entry_type = Exit\<rparr>] \<and>
   stored_timestamp (stringifyEntry
      \<lparr>id = ''k3j9x0abc'', plate_number = ''KA05MH'', timestamp = Time 1700000000123,
        entry_type = Entry\<rparr>) = Some ''2023-11-14T22:13:20.123Z''"
proof -
  have v: "\<forall>e \<in> set [\<lparr>id = ''k3j9x0abc'', plate_number = ''KA05MH'',
        timestamp = Time 1700000000123, entry_type = Entry\<rparr>,
      \<lparr>id = ''z81kq02mn'', plate_number = ''ABC123'', timestamp = Time (- 1),
        entry_type = Exit\<rparr>]. validDate (timestamp e)"
    by (simp add: validDate_def maxTime_def)
  have s: "isoString 1700000000123 = ''2023-11-14T22:13:20.123Z''"
    by code_simp
  from persistence_round_trip [OF v, of "\<lparr>parkingEntries = [], toasts = []\<rparr>"] s
  show ?thesis
    by (simp add: stringifyEntry_def toJSON_def)
qed

lemma csvRow_valid:
  assumes "timestamp e \<noteq> InvalidDate"
  shows "csvRow e = Inr (csvLine e)"
  using assms
  by (cases "timestamp e") (simp_all add: csvRow_def csvLine_def toISOString_def isoText_def)

lemma csvRows_valid:
  assumes "\<forall>e \<in> set es. timestamp e \<noteq> InvalidDate"
  shows "csvRows es = Inr (map csvLine es)"
  using assms by (induction es) (simp_all add: csvRow_valid)

lemma splitLines_no_newline:
  assumes "CHR 0x0A \<notin> set l"
  shows "splitLines (l @ CHR 0x0A # rest) = l # splitLines rest" and "splitLines l = [l]"
  using assms by (induction l) auto

lemma splitLines_join:
  assumes "ls \<noteq> []" and "\<forall>l \<in> set ls. CHR 0x0A \<notin> set l"
  shows "splitLines (join [CHR 0x0A] ls) = ls"
  using assms
proof (induction "[CHR 0x0A]" ls rule: join.induct)
  case 1
  then show ?case by simp
next
  case (2 x)
  then show ?case by (simp add: splitLines_no_newline)
next
  case (3 x y ys)
  then show ?case by (simp add: splitLines_no_newline)
qed

lemma csvLine_no_newline:
  assumes "CHR 0x0A \<notin> set (plate_number e)"
  shows "CHR 0x0A \<notin> set (csvLine e)"
proof -
  have "CHR 0x0A \<notin> set (entryTypeString (entry_type e))"
    by (cases "entry_type e") (simp_all add: entryTypeString_def)
  moreover have "CHR 0x0A \<notin> set (isoText (timestamp e))"
    by (cases "timestamp e") (simp_all add: isoText_def isoString_no_newline)
  ultimately show ?thesis
    using assms by (simp add: csvLine_def)
qed

text \<open>
  C8. For every filtered entry list whose timestamps are valid Dates, the exported text
  is the header line followed by one line per entry, in order, each made of the plate,
  the direction and the ISO-8601 timestamp separated by commas; as long as no plate
  contains a line feed, these are exactly the lines of the text. For the empty list the
  export is the header line alone.
\<close>

theorem exportData_csv:
  assumes "\<forall>e \<in> set es. timestamp e \<noteq> InvalidDate"
  shows "exportData es = Inr (join [CHR 0x0A] (csvHeader # map csvLine es)) \<and>
         ((\<forall>e \<in> set es. CHR 0x0A \<notin> set (plate_number e)) \<longrightarrow>
            map_sum (\<lambda>err. err) splitLines (exportData es) =
              Inr (csvHeader # map csvLine es)) \<and>
         exportData [] = Inr csvHeader"
proof -
  have e: "exportData es = Inr (join [CHR 0x0A] (csvHeader # map csvLine es))"
    by (simp add: exportData_def csvRows_valid [OF assms] csvHeader_def)
  have "splitLines (join [CHR 0x0A] (csvHeader # map csvLine es)) = csvHeader # map csvLine es"
    if "\<forall>e \<in> set es. CHR 0x0A \<notin> set (plate_number e)"
  proof (rule splitLines_join)
    show "csvHeader # map csvLine es \<noteq> []"
      by simp
    have "CHR 0x0A \<notin> set csvHeader"
      by (simp add: csvHeader_def)
    with that show "\<forall>l \<in> set (csvHeader # map csvLine es). CHR 0x0A \<notin> set l"
      by (auto simp: csvLine_no_newline)
  qed
  moreover have "exportData [] = Inr csvHeader"
    by (simp add: exportData_def csvHeader_def)
  ultimately show ?thesis
    using e by simp
qed

theorem exportData_csv_witness:
  "exportData
     [\<lparr>id = ''k3j9x0abc'', plate_number = ''KA05MH'', timestamp = Time 1700000000123,
        entry_type = Entry\<rparr>,
      \<lparr>id = ''z81kq02mn'', plate_number = ''ABC123'', timestamp = Time 1700000300000,
        entry_type = Exit\<rparr>] =
     Inr (''Plate Number,Entry Type,Timestamp'' @ [CHR 0x0A] @
          ''KA05MH,Entry,2023-11-14T22:13:20.123Z'' @ [CHR 0x0A] @
          ''ABC123,Exit,2023-11-14T22:18:20.000Z'')"
proof -
  let ?a = "\<lparr>id = ''k3j9x0abc'', plate_number = ''KA05MH'', timestamp = Time 1700000000123,
        entry_type = Entry\<rparr>"
  let ?b = "\<lparr>id = ''z81kq02mn'', plate_number = ''ABC123'', timestamp = Time 1700000300000,
        entry_type = Exit\<rparr>"
  have v: "\<forall>e \<in> set [?a, ?b]. timestamp e \<noteq> InvalidDate"
    by simp
  have s: "isoString 1700000000123 = ''2023-11-14T22:13:20.123Z''"
    "isoString 1700000300000 = ''2023-11-14T22:18:20.000Z''"
    by code_simp+
  from exportData_csv [OF v] show ?thesis
    by (simp add: csvLine_def csvHeader_def isoText_def entryTypeString_def s)
qed

section \<open>Properties of the Image Preprocessor\<close>

text \<open>The three literals are the doubles nearest to 0.299, 0.587 and 0.114.\<close>

lemma double_literal_bits: "bitLength c299 = 55" "bitLength c587 = 56" "bitLength c114 = 53"
  by code_simp+

lemma double_literals:
  "4 dvd c299 \<and> \<bar>1000 * c299 - 299 * 2 ^ 56\<bar> * 2 \<le> 1000 * 2 ^ 2"
  "8 dvd c587 \<and> \<bar>1000 * c587 - 587 * 2 ^ 56\<bar> * 2 \<le> 1000 * 2 ^ 3"
  "\<bar>1000 * c114 - 114 * 2 ^ 56\<bar> * 2 \<le> 1000 * 2 ^ 0"
  by (simp_all add: c299_def c587_def c114_def)

text \<open>
  The luminance is computed in doubles: for the pixel (6, 76, 71) the exact value of
  the weighted sum is 54.5, the computed sum is just below it and rounds to 54.
\<close>

lemma gray_in_doubles: "gray 6 76 71 = 54" "gray 2 86 30 = 55"
  by code_simp+







end
